theory Spec2Isabelle
  imports Main
begin

text \<open>
  The repository exports one function, \<^verbatim>\<open>gatekeeper(options)\<close>, which returns the
  configured rule list and the function \<^verbatim>\<open>trust\<close>. Its source is present in two
  versions, src/lib/index.ts and src/unnamed/part_000; both are embedded here, the first
  under names that end in \<open>_lib\<close> and the second under names that end in \<open>_part000\<close>.
\<close>

section \<open>JavaScript values\<close>

text \<open>
  A call of user code returns a value or throws one.
\<close>

datatype 'v completion = Returned 'v | Thrown 'v

text \<open>
  The values that flow through the pipeline: the primitives; objects holding data
  properties (a list of key and value pairs, in insertion order, of which the first pair of
  a key counts), either ordinary ones, whose prototype is \<^verbatim>\<open>Object.prototype\<close>, or
  bare ones, created without a prototype (\<^verbatim>\<open>Object.create(null)\<close>); functions; and
  instances of \<^verbatim>\<open>Error\<close>, of \<^verbatim>\<open>TypeError\<close> and of the repository's
  subclass \<^verbatim>\<open>GatekeeperUnauthorizedError\<close>. A number is represented by its string
  form (\<^verbatim>\<open>1\<close>, \<^verbatim>\<open>-0.5\<close>, \<^verbatim>\<open>1e+21\<close>, \<^verbatim>\<open>NaN\<close>): the
  program does nothing with a number but pass it on and convert it to a string.

  The program never calls a function that it finds in a value; the runtime does, in two
  places. \<^verbatim>\<open>String(error)\<close> calls the methods \<^verbatim>\<open>toString\<close> and
  \<^verbatim>\<open>valueOf\<close> of an object without arguments, and the resolution of a promise
  with an object calls the object's method \<^verbatim>\<open>then\<close> with the two resolving
  functions of the promise. A function value is described by its source text and by what
  these two calls of it give: \<open>on_call\<close> is the value it returns or throws when called
  without arguments, and \<open>on_then\<close> is what it does to the promise when called as a
  \<^verbatim>\<open>then\<close> method: it resolves the promise with a value (\<open>Returned\<close>), or it
  rejects the promise with a value or throws that value before it has done either
  (\<open>Thrown\<close>). A function held in a value acts on nothing but the promise, and, like every
  promise of the model, a promise that follows a \<^verbatim>\<open>then\<close> method settles.
  Properties keyed by a symbol, accessor properties and proxies are not modelled.

  \<^verbatim>\<open>
  export class GatekeeperUnauthorizedError extends Error {
    public constructor(message: string, public reason: Error,
                       public rule: string = 'failcheck') {
      super(message)
    }
  }
  \<close>
  The class is the constructor \<open>GatekeeperUnauthorizedError\<close> with its three fields.
  The field \<open>reason\<close> is declared an \<^verbatim>\<open>Error\<close>, which the compiler
  checks and the running program does not: it holds a value.
\<close>

datatype jsval =
    JUndefined
  | JNull
  | JBoolean bool
  | JNumber string
  | JString string
  | JObject "(string \<times> jsval) list"
  | JBareObject "(string \<times> jsval) list"
  | JFunction (source: string) (on_call: "jsval completion") (on_then: "jsval completion")
  | Error (message: string)
  | TypeError (message: string)
  | GatekeeperUnauthorizedError (message: string) (reason: jsval) (rule: string)

type_synonym outcome = "jsval completion"

text \<open>
  The class constructor. The third parameter has a default value, which JavaScript
  takes when the argument is \<^verbatim>\<open>undefined\<close>; \<open>trust\<close> passes its variable
  \<^verbatim>\<open>currentRule: string | undefined\<close>, here a \<open>string option\<close>.
\<close>

definition new_GatekeeperUnauthorizedError :: "string \<Rightarrow> jsval \<Rightarrow> string option \<Rightarrow> jsval" where
  "new_GatekeeperUnauthorizedError msg rsn currentRule =
     GatekeeperUnauthorizedError msg rsn
       (case currentRule of None \<Rightarrow> ''failcheck'' | Some tag \<Rightarrow> tag)"

text \<open>\<^verbatim>\<open>error instanceof Error\<close>: true of an \<^verbatim>\<open>Error\<close> and of every subclass.\<close>

fun instanceof_Error :: "jsval \<Rightarrow> bool" where
  "instanceof_Error (Error _) = True"
| "instanceof_Error (TypeError _) = True"
| "instanceof_Error (GatekeeperUnauthorizedError _ _ _) = True"
| "instanceof_Error _ = False"

text \<open>
  Reading a property, as \<^verbatim>\<open>x?.key\<close> does and, of a value other than
  \<^verbatim>\<open>undefined\<close> and \<^verbatim>\<open>null\<close>, \<^verbatim>\<open>x.key\<close>: for a key
  that the language does not itself define on the value (as it does
  \<^verbatim>\<open>toString\<close>, the \<^verbatim>\<open>length\<close> of a string or of a function,
  the \<^verbatim>\<open>stack\<close> of an error). The fields of an error are properties of it.
\<close>

definition property :: "jsval \<Rightarrow> string \<Rightarrow> jsval" where
  "property x key =
     (case x of
        JObject kvs \<Rightarrow> (case map_of kvs key of Some v \<Rightarrow> v | None \<Rightarrow> JUndefined)
      | JBareObject kvs \<Rightarrow> (case map_of kvs key of Some v \<Rightarrow> v | None \<Rightarrow> JUndefined)
      | Error msg \<Rightarrow> (if key = ''message'' then JString msg else JUndefined)
      | TypeError msg \<Rightarrow> (if key = ''message'' then JString msg else JUndefined)
      | GatekeeperUnauthorizedError msg rsn tag \<Rightarrow>
          (if key = ''message'' then JString msg
           else if key = ''reason'' then rsn
           else if key = ''rule'' then JString tag
           else JUndefined)
      | _ \<Rightarrow> JUndefined)"

text \<open>
  \<^verbatim>\<open>String(value)\<close>. A primitive has a string form. An object is converted by
  its method \<^verbatim>\<open>toString\<close> and, when that is not callable or returns an object,
  by its method \<^verbatim>\<open>valueOf\<close>; what a method throws, the conversion throws, and
  when neither method gives a primitive the conversion throws a \<^verbatim>\<open>TypeError\<close>
  (its message is the engine's wording, on which nothing below depends).

  \<open>js_method x name\<close> is what the call of the method \<open>name\<close> of the object \<open>x\<close> gives,
  for these two names, and \<open>None\<close> when \<open>x\<close> has no callable property of that name. An own
  property hides an inherited method, callable or not. An ordinary object inherits the
  methods of \<^verbatim>\<open>Object.prototype\<close>: \<^verbatim>\<open>toString\<close> returns
  \<^verbatim>\<open>[object Object]\<close> and \<^verbatim>\<open>valueOf\<close> returns the object. A bare
  object inherits nothing. A function prints its source text, and an error its name and its
  message (the subclass inherits the name \<^verbatim>\<open>Error\<close>).
\<close>

definition cannot_convert :: jsval where
  "cannot_convert = TypeError ''Cannot convert object to primitive value''"

fun primitive :: "jsval \<Rightarrow> string option" where
  "primitive JUndefined = Some ''undefined''"
| "primitive JNull = Some ''null''"
| "primitive (JBoolean b) = Some (if b then ''true'' else ''false'')"
| "primitive (JNumber n) = Some n"
| "primitive (JString s) = Some s"
| "primitive _ = None"

definition own_method :: "(string \<times> jsval) list \<Rightarrow> string \<Rightarrow> outcome option \<Rightarrow> outcome option" where
  "own_method kvs name inherited =
     (case map_of kvs name of
        None \<Rightarrow> inherited
      | Some (JFunction src call follow) \<Rightarrow> Some call
      | Some _ \<Rightarrow> None)"

definition print_error :: "string \<Rightarrow> string \<Rightarrow> string" where
  "print_error name msg = (if msg = [] then name else name @ '': '' @ msg)"

fun js_method :: "jsval \<Rightarrow> string \<Rightarrow> outcome option" where
  "js_method (JObject kvs) name =
     own_method kvs name
       (if name = ''toString'' then Some (Returned (JString ''[object Object]''))
        else if name = ''valueOf'' then Some (Returned (JObject kvs))
        else None)"
| "js_method (JBareObject kvs) name = own_method kvs name None"
| "js_method (JFunction src call follow) name =
     (if name = ''toString'' then Some (Returned (JString src))
      else if name = ''valueOf'' then Some (Returned (JFunction src call follow))
      else None)"
| "js_method (Error msg) name =
     (if name = ''toString'' then Some (Returned (JString (print_error ''Error'' msg)))
      else if name = ''valueOf'' then Some (Returned (Error msg))
      else None)"
| "js_method (TypeError msg) name =
     (if name = ''toString'' then Some (Returned (JString (print_error ''TypeError'' msg)))
      else if name = ''valueOf'' then Some (Returned (TypeError msg))
      else None)"
| "js_method (GatekeeperUnauthorizedError msg rsn tag) name =
     (if name = ''toString'' then Some (Returned (JString (print_error ''Error'' msg)))
      else if name = ''valueOf'' then Some (Returned (GatekeeperUnauthorizedError msg rsn tag))
      else None)"
| "js_method _ name = None"

text \<open>
  The conversion of an object to a primitive, with the hint \<^verbatim>\<open>string\<close>:
  \<^verbatim>\<open>toString\<close> first, then \<^verbatim>\<open>valueOf\<close>. \<open>Inl\<close> is the value thrown.
\<close>

definition to_primitive :: "jsval \<Rightarrow> jsval + string" where
  "to_primitive x =
     (case js_method x ''toString'' of
        Some (Thrown e) \<Rightarrow> Inl e
      | Some (Returned v) \<Rightarrow>
          (case primitive v of
             Some s \<Rightarrow> Inr s
           | None \<Rightarrow>
               (case js_method x ''valueOf'' of
                  Some (Thrown e) \<Rightarrow> Inl e
                | Some (Returned v') \<Rightarrow>
                    (case primitive v' of Some s \<Rightarrow> Inr s | None \<Rightarrow> Inl cannot_convert)
                | None \<Rightarrow> Inl cannot_convert))
      | None \<Rightarrow>
          (case js_method x ''valueOf'' of
             Some (Thrown e) \<Rightarrow> Inl e
           | Some (Returned v') \<Rightarrow>
               (case primitive v' of Some s \<Rightarrow> Inr s | None \<Rightarrow> Inl cannot_convert)
           | None \<Rightarrow> Inl cannot_convert))"

definition js_String :: "jsval \<Rightarrow> jsval + string" where
  "js_String x = (case primitive x of Some s \<Rightarrow> Inr s | None \<Rightarrow> to_primitive x)"

text \<open>
  The resolution of a promise with a value, which is what \<^verbatim>\<open>await value\<close> and
  the \<^verbatim>\<open>return value\<close> of an \<^verbatim>\<open>async\<close> function do. A value whose
  property \<^verbatim>\<open>then\<close> is a function is a thenable: the promise follows it, and
  settles as that method settles it, with the value the method resolves it with resolved in
  turn. Any other value fulfils the promise. \<open>Returned\<close> is the value the promise is
  fulfilled with, \<open>Thrown\<close> the value it is rejected with.
\<close>

function adopt :: "jsval \<Rightarrow> outcome" where
  "adopt x =
     (case property x ''then'' of
        JFunction src call (Returned v) \<Rightarrow> adopt v
      | JFunction src call (Thrown e) \<Rightarrow> Thrown e
      | _ \<Rightarrow> Returned x)"
  by pat_completeness auto

text \<open>The value a method resolves the promise with is a part of the thenable.\<close>

termination adopt
proof (relation "measure size")
  show "wf (measure size)" by simp
next
  fix x src call v out
  assume then_method: "property x ''then'' = JFunction src call out" and out: "out = Returned v"
  have part: "size u < Suc (size_list (size_prod (\<lambda>_. 0) size) kvs)"
    if "map_of kvs k = Some u" for kvs :: "(string \<times> jsval) list" and k u
    using that by (induction kvs) (auto split: if_splits)
  from then_method have "size (JFunction src call out) < size x"
    by (cases x) (auto simp: property_def dest: part split: option.splits if_splits)
  with out show "(v, x) \<in> measure size" by simp
qed

declare adopt.simps [simp del]

section \<open>The result object\<close>

text \<open>
  \<^verbatim>\<open>const returnOfRuleSet = {} as Rules\<close> creates an ordinary object: no own
  property, and \<^verbatim>\<open>Object.prototype\<close> as its prototype. The own properties are
  the result mapping, from rule name to value.
\<close>

datatype prototype = ObjectPrototype | NullPrototype | InstancePrototype jsval

record jsobject =
  own :: "string \<rightharpoonup> jsval"
  proto :: prototype

definition empty_object :: jsobject where
  "empty_object = \<lparr>own = Map.empty, proto = ObjectPrototype\<rparr>"

text \<open>
  The assignment \<^verbatim>\<open>returnOfRuleSet[tag] = result\<close>. For every key but one it
  creates or overwrites the own data property \<open>tag\<close>. The key
  \<^verbatim>\<open>__proto__\<close> is an accessor property of \<^verbatim>\<open>Object.prototype\<close>:
  as long as the lookup of that key reaches the accessor (the object has no own property
  of that name, and neither has an object put in as its prototype), the assignment runs the
  setter, which replaces the prototype when the value is an object (a function and an
  error are objects) or \<^verbatim>\<open>null\<close> and does nothing otherwise. It creates no
  own property. When the lookup does not reach the accessor (the prototype was replaced by
  \<^verbatim>\<open>null\<close>, by a bare object, or by an object with an own property of that
  name), the assignment creates an own property like any other.
\<close>

definition reaches_proto_setter :: "jsobject \<Rightarrow> bool" where
  "reaches_proto_setter ob =
     (own ob ''__proto__'' = None \<and>
      (case proto ob of
         ObjectPrototype \<Rightarrow> True
       | NullPrototype \<Rightarrow> False
       | InstancePrototype (JObject kvs) \<Rightarrow> ''__proto__'' \<notin> fst ` set kvs
       | InstancePrototype (JBareObject kvs) \<Rightarrow> False
       | InstancePrototype _ \<Rightarrow> True))"

definition js_put :: "jsobject \<Rightarrow> string \<Rightarrow> jsval \<Rightarrow> jsobject" where
  "js_put ob tag v =
     (if tag = ''__proto__'' \<and> reaches_proto_setter ob then
        (case v of
           JObject _ \<Rightarrow> ob\<lparr>proto := InstancePrototype v\<rparr>
         | JBareObject _ \<Rightarrow> ob\<lparr>proto := InstancePrototype v\<rparr>
         | JFunction _ _ _ \<Rightarrow> ob\<lparr>proto := InstancePrototype v\<rparr>
         | Error _ \<Rightarrow> ob\<lparr>proto := InstancePrototype v\<rparr>
         | TypeError _ \<Rightarrow> ob\<lparr>proto := InstancePrototype v\<rparr>
         | GatekeeperUnauthorizedError _ _ _ \<Rightarrow> ob\<lparr>proto := InstancePrototype v\<rparr>
         | JNull \<Rightarrow> ob\<lparr>proto := NullPrototype\<rparr>
         | _ \<Rightarrow> ob)
      else ob\<lparr>own := (own ob)(tag \<mapsto> v)\<rparr>)"

text \<open>
  \<^verbatim>\<open>returnOfRuleSet.then\<close>, as the resolution of a promise reads it: the own
  property, and without one the property of the prototype. \<^verbatim>\<open>Object.prototype\<close>
  has no such property.
\<close>

definition then_of :: "jsobject \<Rightarrow> jsval" where
  "then_of ob =
     (case own ob ''then'' of
        Some v \<Rightarrow> v
      | None \<Rightarrow>
          (case proto ob of
             InstancePrototype v \<Rightarrow> property v ''then''
           | _ \<Rightarrow> JUndefined))"

text \<open>
  \<^verbatim>\<open>return returnOfRuleSet\<close> in an \<^verbatim>\<open>async\<close> function resolves
  the promise of the function with the object. When the object is not a thenable the promise
  is fulfilled with it: \<open>Inr (Mapping returnOfRuleSet)\<close>. When it is one, the promise
  follows its \<^verbatim>\<open>then\<close> method: it is fulfilled with the value that method
  resolves it with (\<open>Inr (Adopted v)\<close>), or rejected (\<open>Inl e\<close>).
\<close>

datatype fulfilment = Mapping jsobject | Adopted jsval

definition resolve :: "jsobject \<Rightarrow> jsval + fulfilment" where
  "resolve returnOfRuleSet =
     (case then_of returnOfRuleSet of
        JFunction src call (Returned v) \<Rightarrow>
          (case adopt v of Returned v' \<Rightarrow> Inr (Adopted v') | Thrown e \<Rightarrow> Inl e)
      | JFunction src call (Thrown e) \<Rightarrow> Inl e
      | _ \<Rightarrow> Inr (Mapping returnOfRuleSet))"

section \<open>Callables and options\<close>

text \<open>
  The capture function, the context function and the rule evaluators are supplied by the
  caller and may do anything: each is a function of its arguments and of the world
  \<open>'s\<close> it acts on. The capture and context functions are called and not awaited:
  a call returns a value or throws, and leaves a world.
\<close>

type_synonym 's callable = "jsval \<Rightarrow> 's \<Rightarrow> outcome \<times> 's"

text \<open>
  A rule evaluator may be asynchronous. Its call runs the evaluator up to its first
  suspension and leaves a world. The call is \<open>Done\<close> when it returned a value that is not a
  promise or threw; otherwise it returned a \<open>Promise\<close>, which settles later: the rest of
  the evaluator runs, from the world of that moment, and fulfils the promise with a value
  (\<open>Returned\<close>) or rejects it (\<open>Thrown\<close>).
\<close>

datatype 's call = Done outcome | Promise "'s \<Rightarrow> outcome \<times> 's"

type_synonym 's evaluator = "jsval \<Rightarrow> jsval \<Rightarrow> 's \<Rightarrow> 's call \<times> 's"

text \<open>
  \<^verbatim>\<open>await rule(parameters, context)\<close>: \<open>trust\<close> does nothing between the call and
  the settlement of its promise, so the promise settles from the world the call left. A
  rejection is thrown at the \<^verbatim>\<open>await\<close>, where a throw of the call itself would have
  been. A value that the call returned is awaited as it is, unless it is a thenable:
  \<^verbatim>\<open>await\<close> resolves a promise with the value and waits for that promise.
\<close>

definition settled :: "outcome \<Rightarrow> outcome" where
  "settled out = (case out of Returned v \<Rightarrow> adopt v | Thrown e \<Rightarrow> Thrown e)"

fun await :: "'s call \<times> 's \<Rightarrow> outcome \<times> 's" where
  "await (Done out, w) = (settled out, w)"
| "await (Promise settle, w) = settle w"

type_synonym 's Rule = "string \<times> 's evaluator"

text \<open>
  \<^verbatim>\<open>
  export type GatekeeperOptions<Parameters, Context, RuleSet> = {
    capture: (x: unknown) => Parameters;
    context?: (x: unknown) => Context;
    rules: RuleSet;
  };
  \<close>
  The optional field is \<open>context'\<close> (the unprimed word is reserved).
\<close>

record 's GatekeeperOptions =
  capture :: "'s callable"
  context' :: "'s callable option"
  rules :: "'s Rule list"

text \<open>\<^verbatim>\<open>customRule(tag, ruleFn)\<close> returns the pair.\<close>

definition customRule :: "string \<Rightarrow> 's evaluator \<Rightarrow> 's Rule" where
  "customRule tag ruleFn = (tag, ruleFn)"

section \<open>trust\<close>

text \<open>
  \<^verbatim>\<open>options.context ? options.context(context) : undefined\<close>, the first
  statement of \<open>trust\<close> in both files.
\<close>

definition validated_context :: "'s GatekeeperOptions \<Rightarrow> jsval \<Rightarrow> 's \<Rightarrow> outcome \<times> 's" where
  "validated_context options context w =
     (case context' options of
        Some f \<Rightarrow> f context w
      | None \<Rightarrow> (Returned JUndefined, w))"

text \<open>
  The \<^verbatim>\<open>for\<close> loop inside \<^verbatim>\<open>try\<close>, in src/unnamed/part_000:
  \<^verbatim>\<open>
  for (const [tag, rule] of options.rules) {
    currentRule = tag;
    const result = await rule(parameters, validatedContext as Context);
    if (result !== undefined) {
      (returnOfRuleSet as Record<string, unknown>)[tag] = result;
    }
  }
  return returnOfRuleSet;
  \<close>
  \<open>Inl\<close> carries what the \<^verbatim>\<open>catch\<close> clause sees: the thrown value and
  \<^verbatim>\<open>currentRule\<close> at that moment.
\<close>

fun run_rules_part000 ::
  "'s Rule list \<Rightarrow> jsval \<Rightarrow> jsval \<Rightarrow> string option \<Rightarrow> jsobject \<Rightarrow> 's
     \<Rightarrow> (jsval \<times> string option + jsobject) \<times> 's" where
  "run_rules_part000 [] parameters validatedContext currentRule returnOfRuleSet w =
     (Inr returnOfRuleSet, w)"
| "run_rules_part000 ((tag, evaluator) # rest) parameters validatedContext currentRule
       returnOfRuleSet w =
     (case await (evaluator parameters validatedContext w) of
        (Thrown error, w') \<Rightarrow> (Inl (error, Some tag), w')
      | (Returned result, w') \<Rightarrow>
          run_rules_part000 rest parameters validatedContext (Some tag)
            (if result \<noteq> JUndefined then js_put returnOfRuleSet tag result
             else returnOfRuleSet) w')"

text \<open>
  The loop in src/lib/index.ts, which assigns whatever the evaluator returned:
  \<^verbatim>\<open>
  for (const [tag, rule] of options.rules) {
    currentRule = tag
    returnOfRuleSet[tag as string] = await rule(parameters, context)
  }
  return returnOfRuleSet
  \<close>
\<close>

fun run_rules_lib ::
  "'s Rule list \<Rightarrow> jsval \<Rightarrow> jsval \<Rightarrow> string option \<Rightarrow> jsobject \<Rightarrow> 's
     \<Rightarrow> (jsval \<times> string option + jsobject) \<times> 's" where
  "run_rules_lib [] parameters context currentRule returnOfRuleSet w =
     (Inr returnOfRuleSet, w)"
| "run_rules_lib ((tag, evaluator) # rest) parameters context currentRule returnOfRuleSet w =
     (case await (evaluator parameters context w) of
        (Thrown error, w') \<Rightarrow> (Inl (error, Some tag), w')
      | (Returned result, w') \<Rightarrow>
          run_rules_lib rest parameters context (Some tag)
            (js_put returnOfRuleSet tag result) w')"

text \<open>
  \<open>trust\<close> of src/unnamed/part_000. It is an \<^verbatim>\<open>async\<close> function: its
  result is what its promise settles with, \<open>Inl\<close> the value the promise is rejected with
  and \<open>Inr\<close> what it is fulfilled with. The context function and then the capture
  function run before \<^verbatim>\<open>try\<close>, so what they throw rejects the promise as it
  is; so does what \<^verbatim>\<open>String(error)\<close> throws, inside the \<^verbatim>\<open>catch\<close>
  clause. The \<^verbatim>\<open>return\<close> inside \<^verbatim>\<open>try\<close> resolves the promise.
  \<^verbatim>\<open>
  let currentRule: string | undefined = undefined;
  const validatedContext = options.context ? options.context(context) : undefined;
  const parameters = options.capture(input);
  try { ... } catch (error: unknown) {
    if (error instanceof Error) {
      throw new GatekeeperUnauthorizedError('UNAUTHORIZED', error, currentRule);
    }
    throw new GatekeeperUnauthorizedError('UNAUTHORIZED', new Error(String(error)), currentRule);
  }
  \<close>
\<close>

definition trust_part000 ::
  "'s GatekeeperOptions \<Rightarrow> jsval \<Rightarrow> jsval \<Rightarrow> 's \<Rightarrow> (jsval + fulfilment) \<times> 's" where
  "trust_part000 options input context w =
     (case validated_context options context w of
        (Thrown e, w1) \<Rightarrow> (Inl e, w1)
      | (Returned validatedContext, w1) \<Rightarrow>
          (case capture options input w1 of
             (Thrown e, w2) \<Rightarrow> (Inl e, w2)
           | (Returned parameters, w2) \<Rightarrow>
               (case run_rules_part000 (rules options) parameters validatedContext None
                       empty_object w2 of
                  (Inr returnOfRuleSet, w3) \<Rightarrow> (resolve returnOfRuleSet, w3)
                | (Inl (error, currentRule), w3) \<Rightarrow>
                    (if instanceof_Error error then
                       (Inl (new_GatekeeperUnauthorizedError ''UNAUTHORIZED'' error
                               currentRule), w3)
                     else
                       (case js_String error of
                          Inl thrown \<Rightarrow> (Inl thrown, w3)
                        | Inr s \<Rightarrow>
                            (Inl (new_GatekeeperUnauthorizedError ''UNAUTHORIZED''
                                    (Error s) currentRule), w3))))))"

text \<open>
  \<open>trust\<close> of src/lib/index.ts: the same statements, with the parameters reassigned
  in place and the older loop.
  \<^verbatim>\<open>
  context = options.context ? options.context(context) : undefined
  parameters = options.capture(parameters)
  \<close>
\<close>

definition trust_lib ::
  "'s GatekeeperOptions \<Rightarrow> jsval \<Rightarrow> jsval \<Rightarrow> 's \<Rightarrow> (jsval + fulfilment) \<times> 's" where
  "trust_lib options parameters context w =
     (case validated_context options context w of
        (Thrown e, w1) \<Rightarrow> (Inl e, w1)
      | (Returned context1, w1) \<Rightarrow>
          (case capture options parameters w1 of
             (Thrown e, w2) \<Rightarrow> (Inl e, w2)
           | (Returned parameters1, w2) \<Rightarrow>
               (case run_rules_lib (rules options) parameters1 context1 None empty_object w2 of
                  (Inr returnOfRuleSet, w3) \<Rightarrow> (resolve returnOfRuleSet, w3)
                | (Inl (error, currentRule), w3) \<Rightarrow>
                    (if instanceof_Error error then
                       (Inl (new_GatekeeperUnauthorizedError ''UNAUTHORIZED'' error
                               currentRule), w3)
                     else
                       (case js_String error of
                          Inl thrown \<Rightarrow> (Inl thrown, w3)
                        | Inr s \<Rightarrow>
                            (Inl (new_GatekeeperUnauthorizedError ''UNAUTHORIZED''
                                    (Error s) currentRule), w3))))))"

text \<open>
  \<^verbatim>\<open>return { rules: options.rules, trust: async (...) => { ... } }\<close>, in both files.
\<close>

definition gatekeeper_part000 ::
  "'s GatekeeperOptions \<Rightarrow> 's Rule list \<times> (jsval \<Rightarrow> jsval \<Rightarrow> 's \<Rightarrow> (jsval + fulfilment) \<times> 's)" where
  "gatekeeper_part000 options = (rules options, trust_part000 options)"

definition gatekeeper_lib ::
  "'s GatekeeperOptions \<Rightarrow> 's Rule list \<times> (jsval \<Rightarrow> jsval \<Rightarrow> 's \<Rightarrow> (jsval + fulfilment) \<times> 's)" where
  "gatekeeper_lib options = (rules options, trust_lib options)"

section \<open>Observing a run\<close>

text \<open>
  \<open>settle_all\<close> runs the evaluators of a rule list in order, each in the world the one
  before left, and gives the values they returned and the last world: it is \<open>None\<close> as soon
  as one of them throws. It says, without the loop of either file, that every evaluator of
  the list completes without error.
\<close>

fun settle_all :: "'s Rule list \<Rightarrow> jsval \<Rightarrow> jsval \<Rightarrow> 's \<Rightarrow> (jsval list \<times> 's) option" where
  "settle_all [] p c w = Some ([], w)"
| "settle_all ((tag, evaluator) # rest) p c w =
     (case await (evaluator p c w) of
        (Thrown e, w') \<Rightarrow> None
      | (Returned v, w') \<Rightarrow>
          (case settle_all rest p c w' of
             None \<Rightarrow> None
           | Some (vs, w'') \<Rightarrow> Some (v # vs, w'')))"


text \<open>
  A probe makes the calls of a run visible. It wraps every callable of the options so that
  the call also appends an event to a journal kept beside the world, and changes nothing
  else: the wrapped callable is given the same arguments and the same world, and its
  outcome is passed on. A rule's events carry its position in the rule list: \<open>RuleCalled\<close>
  is logged by the call, and \<open>RuleSettled\<close>, with the outcome that \<^verbatim>\<open>await\<close>
  gives, when the call is done or its promise settles.
\<close>

datatype event =
    ContextCalled jsval
  | CaptureCalled jsval
  | RuleCalled nat string jsval jsval
  | RuleSettled nat string outcome

definition probe_callable :: "(jsval \<Rightarrow> event) \<Rightarrow> 's callable \<Rightarrow> ('s \<times> event list) callable" where
  "probe_callable mk f x s =
     (case f x (fst s) of (out, w') \<Rightarrow> (out, (w', snd s @ [mk x])))"

definition probe_rule :: "nat \<Rightarrow> 's Rule \<Rightarrow> ('s \<times> event list) Rule" where
  "probe_rule i r =
     (fst r, \<lambda>p c s. case snd r p c (fst s) of
        (Done out, w') \<Rightarrow>
          (Done out,
           (w', snd s @ [RuleCalled i (fst r) p c, RuleSettled i (fst r) (settled out)]))
      | (Promise settle, w') \<Rightarrow>
          (Promise (\<lambda>s'. case settle (fst s') of
                      (out, w'') \<Rightarrow> (out, (w'', snd s' @ [RuleSettled i (fst r) out]))),
           (w', snd s @ [RuleCalled i (fst r) p c])))"

definition probe_rules :: "nat \<Rightarrow> 's Rule list \<Rightarrow> ('s \<times> event list) Rule list" where
  "probe_rules i rs = map (\<lambda>(j, r). probe_rule j r) (enumerate i rs)"

definition probe :: "'s GatekeeperOptions \<Rightarrow> ('s \<times> event list) GatekeeperOptions" where
  "probe options =
     \<lparr>capture = probe_callable CaptureCalled (capture options),
      context' = map_option (probe_callable ContextCalled) (context' options),
      rules = probe_rules 0 (rules options)\<rparr>"

text \<open>The journal of a run of \<open>trust\<close>: what the probed options logged, from an empty journal.\<close>

definition journal_part000 :: "'s GatekeeperOptions \<Rightarrow> jsval \<Rightarrow> jsval \<Rightarrow> 's \<Rightarrow> event list" where
  "journal_part000 options input context w =
     snd (snd (trust_part000 (probe options) input context (w, [])))"

definition journal_lib :: "'s GatekeeperOptions \<Rightarrow> jsval \<Rightarrow> jsval \<Rightarrow> 's \<Rightarrow> event list" where
  "journal_lib options input context w =
     snd (snd (trust_lib (probe options) input context (w, [])))"

text \<open>The rules a journal shows called, by position and name, in the order of the calls.\<close>

fun called :: "event list \<Rightarrow> (nat \<times> string) list" where
  "called [] = []"
| "called (RuleCalled i tag p c # evs) = (i, tag) # called evs"
| "called (_ # evs) = called evs"

text \<open>
  The arguments with which a journal shows the context function called, and the parameters
  and context with which it shows the rules called.
\<close>

fun context_calls :: "event list \<Rightarrow> jsval list" where
  "context_calls [] = []"
| "context_calls (ContextCalled x # evs) = x # context_calls evs"
| "context_calls (_ # evs) = context_calls evs"

fun received :: "event list \<Rightarrow> (jsval \<times> jsval) list" where
  "received [] = []"
| "received (RuleCalled i tag p c # evs) = (p, c) # received evs"
| "received (_ # evs) = received evs"

text \<open>The events of the rule loop, read off the unprobed rules.\<close>

fun rule_events :: "nat \<Rightarrow> 's Rule list \<Rightarrow> jsval \<Rightarrow> jsval \<Rightarrow> 's \<Rightarrow> event list" where
  "rule_events i [] p c w = []"
| "rule_events i ((tag, evaluator) # rest) p c w =
     (case await (evaluator p c w) of
        (Thrown e, w') \<Rightarrow> [RuleCalled i tag p c, RuleSettled i tag (Thrown e)]
      | (Returned v, w') \<Rightarrow>
          RuleCalled i tag p c # RuleSettled i tag (Returned v)
            # rule_events (Suc i) rest p c w')"

definition expected_journal :: "'s GatekeeperOptions \<Rightarrow> jsval \<Rightarrow> jsval \<Rightarrow> 's \<Rightarrow> event list" where
  "expected_journal options input context w =
     (case context' options of None \<Rightarrow> [] | Some f \<Rightarrow> [ContextCalled context]) @
     (case validated_context options context w of
        (Thrown e, w1) \<Rightarrow> []
      | (Returned c, w1) \<Rightarrow>
          CaptureCalled input #
          (case capture options input w1 of
             (Thrown e, w2) \<Rightarrow> []
           | (Returned p, w2) \<Rightarrow> rule_events 0 (rules options) p c w2))"

section \<open>Configurations of the test suite\<close>

text \<open>
  The callables the tests configure. \<open>cast\<close> is \<^verbatim>\<open>(x) => x as T\<close>.
  \<open>member\<close> reads a property as \<^verbatim>\<open>x.key\<close> does, and as the destructuring
  of a parameter does: of \<^verbatim>\<open>undefined\<close> and of \<^verbatim>\<open>null\<close> it throws
  a \<^verbatim>\<open>TypeError\<close> (its message is the engine's wording). The world of these
  configurations is a counter that every evaluator increments when it is called: the
  side-effecting probe with which a test sees whether an evaluator ran.
\<close>

definition cast :: "'s callable" where
  "cast x w = (Returned x, w)"

definition refusing :: "jsval \<Rightarrow> 's callable" where
  "refusing e x w = (Thrown e, w)"

definition not_an_object :: jsval where
  "not_an_object = TypeError ''undefined is not an object''"

definition member :: "jsval \<Rightarrow> string \<Rightarrow> outcome" where
  "member x key =
     (if x = JUndefined \<or> x = JNull then Thrown not_an_object else Returned (property x key))"

text \<open>
  What the call of an \<^verbatim>\<open>async\<close> function returns when its body ran to its end
  without suspending: a promise that is rejected with what the body threw, or resolved with
  what it returned.
\<close>

definition async_result :: "outcome \<Rightarrow> 's call" where
  "async_result out = Promise (\<lambda>w. (settled out, w))"

definition returning :: "jsval \<Rightarrow> nat evaluator" where
  "returning v p c n = (Done (Returned v), Suc n)"


text \<open>
  \<^verbatim>\<open>
  const FAILED_ERROR = new Error('Something is wrong...')
  rules: [
    ['organization', async ({ authorization }) => ({ authorization, id: 1 })],
    ['user', async ({}, x) => ({ id: 1, role: x?.role })],
    ['error', async (_unused, ctx) => { if (ctx?.error === true) throw FAILED_ERROR }],
    ['hide', async () => {}],
  ]
  \<close>
\<close>

definition FAILED_ERROR :: jsval where
  "FAILED_ERROR = Error ''Something is wrong...''"

definition organization :: "nat evaluator" where
  "organization p c n =
     (async_result
        (case member p ''authorization'' of
           Thrown e \<Rightarrow> Thrown e
         | Returned authorization \<Rightarrow>
             Returned (JObject [(''authorization'', authorization), (''id'', JNumber ''1'')])),
      Suc n)"

definition user :: "nat evaluator" where
  "user p c n =
     (async_result
        (if p = JUndefined \<or> p = JNull then Thrown not_an_object
         else Returned (JObject [(''id'', JNumber ''1''), (''role'', property c ''role'')])),
      Suc n)"

definition error_rule :: "nat evaluator" where
  "error_rule p c n =
     (if property c ''error'' = JBoolean True then (async_result (Thrown FAILED_ERROR), Suc n)
      else (async_result (Returned JUndefined), Suc n))"

definition hide :: "nat evaluator" where
  "hide p c n = (async_result (Returned JUndefined), Suc n)"

definition suite_options :: "nat GatekeeperOptions" where
  "suite_options =
     \<lparr>capture = cast, context' = Some cast,
      rules = [(''organization'', organization), (''user'', user),
               (''error'', error_rule), (''hide'', hide)]\<rparr>"

definition bearer :: jsval where
  "bearer = JObject [(''authorization'', JString ''Bearer tokn_123123'')]"


definition role_context :: jsval where
  "role_context = JObject [(''role'', JString ''admin'')]"

text \<open>
  \<^verbatim>\<open>
  rules: [
    customRule('checkUserId', (params) => params.userId === 'admin'),
    customRule('getRole', (params) => params.userId === 'admin' ? 'admin' : 'user'),
  ]
  \<close>
\<close>

definition checkUserId :: "nat evaluator" where
  "checkUserId p c n =
     (Done (case member p ''userId'' of
              Thrown e \<Rightarrow> Thrown e
            | Returned userId \<Rightarrow> Returned (JBoolean (userId = JString ''admin''))),
      Suc n)"

definition getRole :: "nat evaluator" where
  "getRole p c n =
     (Done (case member p ''userId'' of
              Thrown e \<Rightarrow> Thrown e
            | Returned userId \<Rightarrow>
                Returned (JString (if userId = JString ''admin'' then ''admin'' else ''user''))),
      Suc n)"

definition admin_options :: "nat GatekeeperOptions" where
  "admin_options =
     \<lparr>capture = cast, context' = None,
      rules = [customRule ''checkUserId'' checkUserId, customRule ''getRole'' getRole]\<rparr>"

definition admin :: jsval where
  "admin = JObject [(''userId'', JString ''admin'')]"

text \<open>A rule list of one rule, named \<^verbatim>\<open>__proto__\<close>, that returns a string.\<close>

definition proto_options :: "nat GatekeeperOptions" where
  "proto_options =
     \<lparr>capture = cast, context' = None,
      rules = [customRule ''__proto__'' (returning (JString ''admin''))]\<rparr>"

text \<open>
  \<^verbatim>\<open>
  rules: [
    customRule('voidRule', () => { /* do nothing */ }),
    customRule('normalRule', () => true),
  ]
  \<close>
\<close>

definition void_options :: "nat GatekeeperOptions" where
  "void_options =
     \<lparr>capture = cast, context' = None,
      rules = [customRule ''voidRule'' (returning JUndefined),
               customRule ''normalRule'' (returning (JBoolean True))]\<rparr>"


text \<open>A capture function that throws, and a configuration without rules.\<close>

definition refusing_options :: "nat GatekeeperOptions" where
  "refusing_options =
     \<lparr>capture = refusing (Error ''no session''), context' = Some cast,
      rules = [(''organization'', organization)]\<rparr>"

definition no_rules_options :: "nat GatekeeperOptions" where
  "no_rules_options = \<lparr>capture = cast, context' = None, rules = []\<rparr>"





text \<open>
  A rule named \<^verbatim>\<open>then\<close> that returns a function,
  \<^verbatim>\<open>customRule('then', () => (resolve) => resolve(42))\<close>. Called without
  arguments, the function returned throws a \<^verbatim>\<open>TypeError\<close>.
\<close>

definition then_options :: "nat GatekeeperOptions" where
  "then_options =
     \<lparr>capture = cast, context' = None,
      rules = [customRule ''then''
                 (returning (JFunction ''(resolve) => resolve(42)''
                    (Thrown (TypeError ''resolve is not a function''))
                    (Returned (JNumber ''42''))))]\<rparr>"

section \<open>Lemmas\<close>

subsection \<open>Thenables\<close>

text \<open>A value that is not a thenable fulfils the promise that is resolved with it.\<close>

lemma adopt_plain: "\<not> is_JFunction (property x ''then'') \<Longrightarrow> adopt x = Returned x"
  by (cases "property x ''then''") (simp_all add: adopt.simps)

lemma settled_Thrown [simp]: "settled (Thrown e) = Thrown e"
  by (simp add: settled_def)

lemma settled_Returned [simp]: "settled (Returned v) = adopt v"
  by (simp add: settled_def)

lemma resolve_plain: "\<not> is_JFunction (then_of r) \<Longrightarrow> resolve r = Inr (Mapping r)"
  by (cases "then_of r") (simp_all add: resolve_def)

lemma resolve_Mapping: "resolve r = Inr (Mapping r') \<Longrightarrow> r' = r"
  by (auto simp: resolve_def split: jsval.splits completion.splits)

lemma resolve_empty_object: "resolve empty_object = Inr (Mapping empty_object)"
  by (simp add: resolve_def then_of_def empty_object_def)

subsection \<open>The assignment\<close>

lemma js_put_plain: "tag \<noteq> ''__proto__'' \<Longrightarrow> js_put ob tag v = ob\<lparr>own := (own ob)(tag \<mapsto> v)\<rparr>"
  by (simp add: js_put_def)

lemma own_js_put_other: "tag \<noteq> name \<Longrightarrow> own (js_put ob tag v) name = own ob name"
  by (simp add: js_put_def split: jsval.splits)


lemma map_add_upd_left: "k \<notin> dom m' \<Longrightarrow> m(k \<mapsto> v) ++ m' = m ++ m'(k \<mapsto> v)"
  by (rule ext) (auto simp: map_add_def split: option.splits)

subsection \<open>The rule loop\<close>

lemma await_async_result [simp]: "await (async_result out, w) = (settled out, w)"
  by (simp add: async_result_def)

lemma settle_all_length: "settle_all rs p c w = Some (vs, w') \<Longrightarrow> length vs = length rs"
  by (induction rs arbitrary: w vs) (auto split: prod.splits completion.splits option.splits)



text \<open>Conversely, every error of the loop comes from the first evaluator that throws.\<close>

lemma run_rules_part000_Inl:
  "run_rules_part000 rs p c cur acc w = (Inl (e, cur'), w') \<Longrightarrow>
   \<exists>pre tag evaluator post vs w1. rs = pre @ (tag, evaluator) # post \<and>
      settle_all pre p c w = Some (vs, w1) \<and> await (evaluator p c w1) = (Thrown e, w') \<and> cur' = Some tag"
proof (induction rs arbitrary: cur acc w)
  case Nil
  then show ?case by simp
next
  case (Cons r rs)
  obtain tag ev where r: "r = (tag, ev)" by (cases r)
  obtain out wa where ev: "await (ev p c w) = (out, wa)" by (cases "await (ev p c w)")
  show ?case
  proof (cases out)
    case (Thrown x)
    with Cons.prems r ev have "x = e" "cur' = Some tag" "wa = w'" by simp_all
    with r ev Thrown have "r # rs = [] @ (tag, ev) # rs \<and> settle_all [] p c w = Some ([], w)
        \<and> await (ev p c w) = (Thrown e, w') \<and> cur' = Some tag" by simp
    then show ?thesis by blast
  next
    case (Returned v)
    with Cons.prems r ev obtain acc' where
      "run_rules_part000 rs p c (Some tag) acc' wa = (Inl (e, cur'), w')" by simp
    from Cons.IH [OF this] obtain pre t f post vs w1 where
      *: "rs = pre @ (t, f) # post" "settle_all pre p c wa = Some (vs, w1)"
         "await (f p c w1) = (Thrown e, w')" "cur' = Some t" by blast
    with r ev Returned have "r # rs = (r # pre) @ (t, f) # post \<and>
        settle_all (r # pre) p c w = Some (v # vs, w1) \<and> await (f p c w1) = (Thrown e, w') \<and> cur' = Some t"
      by simp
    then show ?thesis by blast
  qed
qed

lemma run_rules_lib_Inl:
  "run_rules_lib rs p c cur acc w = (Inl (e, cur'), w') \<Longrightarrow>
   \<exists>pre tag evaluator post vs w1. rs = pre @ (tag, evaluator) # post \<and>
      settle_all pre p c w = Some (vs, w1) \<and> await (evaluator p c w1) = (Thrown e, w') \<and> cur' = Some tag"
proof (induction rs arbitrary: cur acc w)
  case Nil
  then show ?case by simp
next
  case (Cons r rs)
  obtain tag ev where r: "r = (tag, ev)" by (cases r)
  obtain out wa where ev: "await (ev p c w) = (out, wa)" by (cases "await (ev p c w)")
  show ?case
  proof (cases out)
    case (Thrown x)
    with Cons.prems r ev have "x = e" "cur' = Some tag" "wa = w'" by simp_all
    with r ev Thrown have "r # rs = [] @ (tag, ev) # rs \<and> settle_all [] p c w = Some ([], w)
        \<and> await (ev p c w) = (Thrown e, w') \<and> cur' = Some tag" by simp
    then show ?thesis by blast
  next
    case (Returned v)
    with Cons.prems r ev obtain acc' where
      "run_rules_lib rs p c (Some tag) acc' wa = (Inl (e, cur'), w')" by simp
    from Cons.IH [OF this] obtain pre t f post vs w1 where
      *: "rs = pre @ (t, f) # post" "settle_all pre p c wa = Some (vs, w1)"
         "await (f p c w1) = (Thrown e, w')" "cur' = Some t" by blast
    with r ev Returned have "r # rs = (r # pre) @ (t, f) # post \<and>
        settle_all (r # pre) p c w = Some (v # vs, w1) \<and> await (f p c w1) = (Thrown e, w') \<and> cur' = Some t"
      by simp
    then show ?thesis by blast
  qed
qed

text \<open>
  When every evaluator returns a value other than \<^verbatim>\<open>undefined\<close>, the names are distinct
  and none is \<^verbatim>\<open>__proto__\<close>, the loop adds the entries of the rules to the accumulator.
\<close>

lemma run_rules_part000_settled:
  "settle_all rs p c w = Some (vs, w') \<Longrightarrow> JUndefined \<notin> set vs \<Longrightarrow> distinct (map fst rs) \<Longrightarrow>
   ''__proto__'' \<notin> fst ` set rs \<Longrightarrow>
   run_rules_part000 rs p c cur acc w =
     (Inr (acc\<lparr>own := own acc ++ map_of (zip (map fst rs) vs)\<rparr>), w')"
proof (induction rs arbitrary: w vs cur acc)
  case Nil
  then show ?case by simp
next
  case (Cons r rs)
  obtain tag ev where r: "r = (tag, ev)" by (cases r)
  from Cons.prems(1) r obtain v wa vs' where
    ev: "await (ev p c w) = (Returned v, wa)" and rest: "settle_all rs p c wa = Some (vs', w')"
    and vs: "vs = v # vs'"
    by (auto split: prod.splits completion.splits option.splits)
  from Cons.prems r vs have v: "v \<noteq> JUndefined" and tag: "tag \<noteq> ''__proto__''"
    and fresh: "tag \<notin> fst ` set rs" by auto
  have "tag \<notin> dom (map_of (zip (map fst rs) vs'))"
    using fresh by (auto dest!: map_of_SomeD set_zip_leftD)
  then have upd: "own (js_put acc tag v) ++ map_of (zip (map fst rs) vs')
      = own acc ++ map_of (zip (map fst (r # rs)) vs)"
    using r vs tag by (simp add: js_put_plain map_add_upd_left)
  have same: "(js_put acc tag v)\<lparr>own := m\<rparr> = acc\<lparr>own := m\<rparr>" for m
    using tag by (simp add: js_put_plain)
  from Cons.prems r vs have "JUndefined \<notin> set vs'" "distinct (map fst rs)"
    "''__proto__'' \<notin> fst ` set rs" by auto
  from Cons.IH [OF rest this, of "Some tag" "js_put acc tag v"]
  have "run_rules_part000 rs p c (Some tag) (js_put acc tag v) wa =
      (Inr (acc\<lparr>own := own acc ++ map_of (zip (map fst (r # rs)) vs)\<rparr>), w')"
    by (simp only: upd same)
  with r ev v show ?case by simp
qed

lemma run_rules_lib_settled:
  "settle_all rs p c w = Some (vs, w') \<Longrightarrow> distinct (map fst rs) \<Longrightarrow>
   ''__proto__'' \<notin> fst ` set rs \<Longrightarrow>
   run_rules_lib rs p c cur acc w =
     (Inr (acc\<lparr>own := own acc ++ map_of (zip (map fst rs) vs)\<rparr>), w')"
proof (induction rs arbitrary: w vs cur acc)
  case Nil
  then show ?case by simp
next
  case (Cons r rs)
  obtain tag ev where r: "r = (tag, ev)" by (cases r)
  from Cons.prems(1) r obtain v wa vs' where
    ev: "await (ev p c w) = (Returned v, wa)" and rest: "settle_all rs p c wa = Some (vs', w')"
    and vs: "vs = v # vs'"
    by (auto split: prod.splits completion.splits option.splits)
  from Cons.prems r vs have tag: "tag \<noteq> ''__proto__''"
    and fresh: "tag \<notin> fst ` set rs" by auto
  have "tag \<notin> dom (map_of (zip (map fst rs) vs'))"
    using fresh by (auto dest!: map_of_SomeD set_zip_leftD)
  then have upd: "own (js_put acc tag v) ++ map_of (zip (map fst rs) vs')
      = own acc ++ map_of (zip (map fst (r # rs)) vs)"
    using r vs tag by (simp add: js_put_plain map_add_upd_left)
  have same: "(js_put acc tag v)\<lparr>own := m\<rparr> = acc\<lparr>own := m\<rparr>" for m
    using tag by (simp add: js_put_plain)
  from Cons.prems r vs have "distinct (map fst rs)"
    "''__proto__'' \<notin> fst ` set rs" by auto
  from Cons.IH [OF rest this, of "Some tag" "js_put acc tag v"]
  have "run_rules_lib rs p c (Some tag) (js_put acc tag v) wa =
      (Inr (acc\<lparr>own := own acc ++ map_of (zip (map fst (r # rs)) vs)\<rparr>), w')"
    by (simp only: upd same)
  with r ev show ?case by simp
qed

text \<open>
  The loop of part_000 leaves a name alone when every rule of that name returns
  \<^verbatim>\<open>undefined\<close>, and never stores \<^verbatim>\<open>undefined\<close>.
\<close>

lemma run_rules_part000_void:
  "settle_all rs p c w = Some (vs, w') \<Longrightarrow>
   \<exists>r. run_rules_part000 rs p c cur acc w = (Inr r, w')
      \<and> ((\<forall>i < length rs. fst (rs ! i) = name \<longrightarrow> vs ! i = JUndefined) \<longrightarrow> own r name = own acc name)
      \<and> (own acc name \<noteq> Some JUndefined \<longrightarrow> own r name \<noteq> Some JUndefined)"
proof (induction rs arbitrary: w vs cur acc)
  case Nil
  then show ?case by simp
next
  case (Cons r rs)
  obtain tag ev where r: "r = (tag, ev)" by (cases r)
  from Cons.prems(1) r obtain v wa vs' where
    ev: "await (ev p c w) = (Returned v, wa)" and rest: "settle_all rs p c wa = Some (vs', w')"
    and vs: "vs = v # vs'"
    by (auto split: prod.splits completion.splits option.splits)
  let ?acc = "if v \<noteq> JUndefined then js_put acc tag v else acc"
  from Cons.IH [OF rest, of "Some tag" ?acc] obtain res where
    run: "run_rules_part000 rs p c (Some tag) ?acc wa = (Inr res, w')"
    and void: "(\<forall>i < length rs. fst (rs ! i) = name \<longrightarrow> vs' ! i = JUndefined) \<longrightarrow> own res name = own ?acc name"
    and defined: "own ?acc name \<noteq> Some JUndefined \<longrightarrow> own res name \<noteq> Some JUndefined"
    by blast
  have a: "run_rules_part000 (r # rs) p c cur acc w = (Inr res, w')"
    using r ev run by simp
  have b: "(\<forall>i < length (r # rs). fst ((r # rs) ! i) = name \<longrightarrow> vs ! i = JUndefined) \<longrightarrow>
      own res name = own acc name"
  proof
    assume all: "\<forall>i < length (r # rs). fst ((r # rs) ! i) = name \<longrightarrow> vs ! i = JUndefined"
    then have "\<forall>i < length rs. fst (rs ! i) = name \<longrightarrow> vs' ! i = JUndefined"
      using vs by auto
    with void have "own res name = own ?acc name" by blast
    moreover from all r vs have "tag = name \<longrightarrow> v = JUndefined" by auto
    then have "own ?acc name = own acc name"
      by (auto simp: own_js_put_other)
    ultimately show "own res name = own acc name" by simp
  qed
  have c: "own acc name \<noteq> Some JUndefined \<longrightarrow> own res name \<noteq> Some JUndefined"
  proof
    assume "own acc name \<noteq> Some JUndefined"
    then have "own ?acc name \<noteq> Some JUndefined"
      by (auto simp: js_put_def split: jsval.splits)
    with defined show "own res name \<noteq> Some JUndefined" by blast
  qed
  from a b c show ?case by blast
qed

text \<open>
  The two loops agree on a run in which an evaluator throws, and on a run in which no
  evaluator returns \<^verbatim>\<open>undefined\<close>.
\<close>

lemma run_rules_agree_thrown:
  "settle_all rs p c w = None \<Longrightarrow>
   run_rules_lib rs p c cur acc w = run_rules_part000 rs p c cur' acc' w"
proof (induction rs arbitrary: w cur acc cur' acc')
  case Nil
  then show ?case by simp
next
  case (Cons r rs)
  obtain tag ev where r: "r = (tag, ev)" by (cases r)
  obtain out wa where ev: "await (ev p c w) = (out, wa)" by (cases "await (ev p c w)")
  show ?case
  proof (cases out)
    case (Thrown e)
    with r ev show ?thesis by simp
  next
    case (Returned v)
    with Cons.prems r ev have "settle_all rs p c wa = None"
      by (auto split: option.splits)
    from Cons.IH [OF this] r ev Returned show ?thesis by simp
  qed
qed

lemma run_rules_agree_settled:
  "settle_all rs p c w = Some (vs, w') \<Longrightarrow> JUndefined \<notin> set vs \<Longrightarrow>
   run_rules_lib rs p c cur acc w = run_rules_part000 rs p c cur acc w"
proof (induction rs arbitrary: w vs cur acc)
  case Nil
  then show ?case by simp
next
  case (Cons r rs)
  obtain tag ev where r: "r = (tag, ev)" by (cases r)
  from Cons.prems(1) r obtain v wa vs' where
    ev: "await (ev p c w) = (Returned v, wa)" and rest: "settle_all rs p c wa = Some (vs', w')"
    and vs: "vs = v # vs'"
    by (auto split: prod.splits completion.splits option.splits)
  from Cons.prems(2) vs have "v \<noteq> JUndefined" "JUndefined \<notin> set vs'" by auto
  with Cons.IH [OF rest] r ev show ?case by simp
qed





subsection \<open>trust\<close>



lemma trust_part000_void:
  assumes "validated_context options context w = (Returned c, w1)"
    and "capture options input w1 = (Returned p, w2)"
    and "settle_all (rules options) p c w2 = Some (vs, w3)"
    and "fst (trust_part000 options input context w) = Inr (Mapping r)"
  shows "((\<forall>i < length (rules options). fst (rules options ! i) = name \<longrightarrow> vs ! i = JUndefined)
            \<longrightarrow> own r name = None)
      \<and> own r name \<noteq> Some JUndefined"
proof -
  from run_rules_part000_void [OF assms(3), of None empty_object name] obtain r0 where
    run: "run_rules_part000 (rules options) p c None empty_object w2 = (Inr r0, w3)"
    and void: "(\<forall>i < length (rules options). fst (rules options ! i) = name \<longrightarrow> vs ! i = JUndefined)
        \<longrightarrow> own r0 name = own empty_object name"
    and defined: "own empty_object name \<noteq> Some JUndefined \<longrightarrow> own r0 name \<noteq> Some JUndefined"
    by blast
  from assms(1,2,4) run have "resolve r0 = Inr (Mapping r)"
    by (simp add: trust_part000_def)
  then have "r = r0" by (rule resolve_Mapping)
  with void defined show ?thesis by (simp add: empty_object_def)
qed

lemma trust_lib_eq_part000:
  assumes "\<And>c w1 p w2 vs w3. validated_context options context w = (Returned c, w1) \<Longrightarrow>
      capture options input w1 = (Returned p, w2) \<Longrightarrow>
      settle_all (rules options) p c w2 = Some (vs, w3) \<Longrightarrow> JUndefined \<notin> set vs"
  shows "trust_lib options input context w = trust_part000 options input context w"
proof -
  obtain oc w1 where ctx: "validated_context options context w = (oc, w1)"
    by (cases "validated_context options context w")
  show ?thesis
  proof (cases oc)
    case (Thrown e)
    with ctx show ?thesis by (simp add: trust_lib_def trust_part000_def)
  next
    case (Returned c)
    obtain op w2 where cap: "capture options input w1 = (op, w2)"
      by (cases "capture options input w1")
    show ?thesis
    proof (cases op)
      case (Thrown e)
      with ctx Returned cap show ?thesis by (simp add: trust_lib_def trust_part000_def)
    next
      case p: (Returned p)
      have "run_rules_lib (rules options) p c None empty_object w2 =
          run_rules_part000 (rules options) p c None empty_object w2"
      proof (cases "settle_all (rules options) p c w2")
        case None
        then show ?thesis by (rule run_rules_agree_thrown)
      next
        case (Some a)
        then obtain vs w3 where s: "settle_all (rules options) p c w2 = Some (vs, w3)"
          by (cases a) simp
        from assms [OF ctx [unfolded Returned] cap [unfolded p] s] s show ?thesis
          by (rule run_rules_agree_settled [rotated])
      qed
      with ctx Returned cap p show ?thesis by (simp add: trust_lib_def trust_part000_def)
    qed
  qed
qed

text \<open>The two runs the test suite makes with a void rule.\<close>

lemma trust_lib_void_options:
  "trust_lib void_options admin JUndefined 0 =
     (Inr (Mapping \<lparr>own = [''voidRule'' \<mapsto> JUndefined, ''normalRule'' \<mapsto> JBoolean True],
                    proto = ObjectPrototype\<rparr>), 2)"
  by (simp add: trust_lib_def void_options_def validated_context_def cast_def customRule_def
      returning_def js_put_def empty_object_def numeral_2_eq_2 adopt_plain property_def
      resolve_def then_of_def)

lemma trust_part000_void_options:
  "trust_part000 void_options admin JUndefined 0 =
     (Inr (Mapping \<lparr>own = [''normalRule'' \<mapsto> JBoolean True], proto = ObjectPrototype\<rparr>), 2)"
  by (simp add: trust_part000_def void_options_def validated_context_def cast_def customRule_def
      returning_def js_put_def empty_object_def numeral_2_eq_2 adopt_plain property_def
      resolve_def then_of_def)

text \<open>
  A rule named \<^verbatim>\<open>then\<close> that returns a function makes the result object a
  thenable: the promise of \<open>trust\<close> follows the function, and is fulfilled with the
  number the function resolves it with, not with the object.
\<close>

lemma then_rule_is_followed:
  "settle_all (rules then_options) admin JUndefined 0 =
     Some ([JFunction ''(resolve) => resolve(42)''
              (Thrown (TypeError ''resolve is not a function'')) (Returned (JNumber ''42''))], 1)
   \<and> trust_part000 then_options admin JUndefined 0 = (Inr (Adopted (JNumber ''42'')), 1)
   \<and> trust_lib then_options admin JUndefined 0 = (Inr (Adopted (JNumber ''42'')), 1)"
  by (simp add: then_options_def customRule_def returning_def trust_part000_def trust_lib_def
      validated_context_def cast_def js_put_def empty_object_def adopt_plain property_def
      resolve_def then_of_def)

subsection \<open>Probes\<close>

text \<open>
  A probed run is the run itself, with the journal beside it: the result and the world are
  those of the unprobed options.
\<close>

lemma probe_rules_Nil: "probe_rules i [] = []"
  by (simp add: probe_rules_def)

lemma probe_rules_Cons: "probe_rules i (r # rs) = probe_rule i r # probe_rules (Suc i) rs"
  by (simp add: probe_rules_def enumerate_simps)

lemma await_probe_rule:
  "await (snd (probe_rule i (tag, ev)) p c (w, log)) =
     (case await (ev p c w) of
        (out, w') \<Rightarrow> (out, (w', log @ [RuleCalled i tag p c, RuleSettled i tag out])))"
proof (cases "ev p c w")
  case (Pair cl w')
  then show ?thesis
    by (cases cl) (simp_all add: probe_rule_def split: prod.splits)
qed

lemma fst_probe_rule: "fst (probe_rule i r) = fst r"
  by (simp add: probe_rule_def)

lemma run_rules_part000_Cons:
  "run_rules_part000 (r # rest) p c cur acc w =
     (case await (snd r p c w) of
        (Thrown e, w') \<Rightarrow> (Inl (e, Some (fst r)), w')
      | (Returned v, w') \<Rightarrow>
          run_rules_part000 rest p c (Some (fst r))
            (if v \<noteq> JUndefined then js_put acc (fst r) v else acc) w')"
  by (cases r) (auto split: prod.splits completion.splits)

lemma run_rules_lib_Cons:
  "run_rules_lib (r # rest) p c cur acc w =
     (case await (snd r p c w) of
        (Thrown e, w') \<Rightarrow> (Inl (e, Some (fst r)), w')
      | (Returned v, w') \<Rightarrow>
          run_rules_lib rest p c (Some (fst r)) (js_put acc (fst r) v) w')"
  by (cases r) (auto split: prod.splits completion.splits)

lemma run_rules_part000_probe:
  "run_rules_part000 (probe_rules i rs) p c cur acc (w, log) =
     (case run_rules_part000 rs p c cur acc w of
        (r, w') \<Rightarrow> (r, (w', log @ rule_events i rs p c w)))"
proof (induction rs arbitrary: i cur acc w log)
  case Nil
  then show ?case by (simp add: probe_rules_Nil)
next
  case (Cons r rs)
  obtain tag ev where r: "r = (tag, ev)" by (cases r)
  obtain out w' where ev: "await (ev p c w) = (out, w')" by (cases "await (ev p c w)")
  show ?case
  proof (cases out)
    case (Returned v)
    with r ev Cons.IH [of "Suc i" "Some tag" _ w'] show ?thesis
      by (simp add: probe_rules_Cons run_rules_part000_Cons [of "probe_rule i (tag, ev)"]
          fst_probe_rule await_probe_rule)
  next
    case (Thrown e)
    with r ev show ?thesis
      by (simp add: probe_rules_Cons run_rules_part000_Cons [of "probe_rule i (tag, ev)"]
          fst_probe_rule await_probe_rule)
  qed
qed

lemma run_rules_lib_probe:
  "run_rules_lib (probe_rules i rs) p c cur acc (w, log) =
     (case run_rules_lib rs p c cur acc w of
        (r, w') \<Rightarrow> (r, (w', log @ rule_events i rs p c w)))"
proof (induction rs arbitrary: i cur acc w log)
  case Nil
  then show ?case by (simp add: probe_rules_Nil)
next
  case (Cons r rs)
  obtain tag ev where r: "r = (tag, ev)" by (cases r)
  obtain out w' where ev: "await (ev p c w) = (out, w')" by (cases "await (ev p c w)")
  show ?case
  proof (cases out)
    case (Returned v)
    with r ev Cons.IH [of "Suc i" "Some tag" _ w'] show ?thesis
      by (simp add: probe_rules_Cons run_rules_lib_Cons [of "probe_rule i (tag, ev)"]
          fst_probe_rule await_probe_rule)
  next
    case (Thrown e)
    with r ev show ?thesis
      by (simp add: probe_rules_Cons run_rules_lib_Cons [of "probe_rule i (tag, ev)"]
          fst_probe_rule await_probe_rule)
  qed
qed

lemma validated_context_probe:
  "validated_context (probe options) context (w, log) =
     (case validated_context options context w of
        (out, w') \<Rightarrow> (out, (w', log @ (case context' options of None \<Rightarrow> [] | Some f \<Rightarrow> [ContextCalled context]))))"
  by (simp add: validated_context_def probe_def probe_callable_def split: option.splits prod.splits)

lemma capture_probe:
  "capture (probe options) input (w, log) =
     (case capture options input w of (out, w') \<Rightarrow> (out, (w', log @ [CaptureCalled input])))"
  by (simp add: probe_def probe_callable_def)

lemma rules_probe: "rules (probe options) = probe_rules 0 (rules options)"
  by (simp add: probe_def)

lemma trust_part000_probe:
  "trust_part000 (probe options) input context (w, []) =
     (case trust_part000 options input context w of
        (r, w') \<Rightarrow> (r, (w', expected_journal options input context w)))"
  unfolding trust_part000_def expected_journal_def
  by (simp add: validated_context_probe capture_probe rules_probe run_rules_part000_probe
      split: prod.splits completion.splits sum.splits)

lemma trust_lib_probe:
  "trust_lib (probe options) input context (w, []) =
     (case trust_lib options input context w of
        (r, w') \<Rightarrow> (r, (w', expected_journal options input context w)))"
  unfolding trust_lib_def expected_journal_def
  by (simp add: validated_context_probe capture_probe rules_probe run_rules_lib_probe
      split: prod.splits completion.splits sum.splits)

lemma journal_part000: "journal_part000 options input context w = expected_journal options input context w"
  by (simp add: journal_part000_def trust_part000_probe split: prod.splits)

lemma journal_lib: "journal_lib options input context w = expected_journal options input context w"
  by (simp add: journal_lib_def trust_lib_probe split: prod.splits)

subsection \<open>Journals\<close>

lemma called_append: "called (xs @ ys) = called xs @ called ys"
  by (induction xs rule: called.induct) auto

lemma context_calls_append: "context_calls (xs @ ys) = context_calls xs @ context_calls ys"
  by (induction xs rule: context_calls.induct) auto

lemma received_append: "received (xs @ ys) = received xs @ received ys"
  by (induction xs rule: received.induct) auto

lemma context_calls_rule_events: "context_calls (rule_events i rs p c w) = []"
  by (induction rs arbitrary: i w) (auto split: prod.splits completion.splits)

lemma received_rule_events: "x \<in> set (received (rule_events i rs p c w)) \<Longrightarrow> x = (p, c)"
proof (induction rs arbitrary: i w)
  case Nil
  then show ?case by simp
next
  case (Cons r rs)
  obtain tag ev where r: "r = (tag, ev)" by (cases r)
  obtain out w' where ev: "await (ev p c w) = (out, w')" by (cases "await (ev p c w)")
  from Cons.prems r ev Cons.IH [of "Suc i" w'] show ?case
    by (cases out) auto
qed




lemma expected_journal_pre_pipeline:
  assumes "validated_context options context w = (Thrown e, w')
         \<or> (\<exists>c w1. validated_context options context w = (Returned c, w1)
               \<and> capture options input w1 = (Thrown e, w'))"
  shows "called (expected_journal options input context w) = []"
  using assms by (auto simp: expected_journal_def called_append split: option.splits)

section \<open>Claims\<close>

text \<open>
  In the theorems below, \<open>c\<close> and \<open>p\<close> are the context and the parameters that the
  context function and the capture function returned, \<open>w\<close> is the world in which
  \<open>trust\<close> is called, and the worlds \<open>w1\<close>, \<open>w2\<close>, ... are those the calls leave, in
  order. A rule list is well formed by its type: every element is a name paired with a
  callable.
\<close>




text \<open>
  C2. A rule whose evaluator returns \<^verbatim>\<open>undefined\<close> contributes no entry to
  the result. \<open>trust\<close> of src/unnamed/part_000 guards the assignment and keeps to this:
  a name whose rules all return \<^verbatim>\<open>undefined\<close> is absent from its result, and
  no name holds \<^verbatim>\<open>undefined\<close> (\<open>trust_part000_void\<close>). \<open>trust\<close> of
  src/lib/index.ts assigns whatever the evaluator returned: on the configuration of the test
  \<^verbatim>\<open>should handle rules with void return\<close> its result has the own property
  \<^verbatim>\<open>voidRule\<close>, holding \<^verbatim>\<open>undefined\<close>, where the result of
  part_000 has none.
\<close>

theorem void_rule_entry_in_lib:
  "trust_lib void_options admin JUndefined 0 =
     (Inr (Mapping \<lparr>own = [''voidRule'' \<mapsto> JUndefined, ''normalRule'' \<mapsto> JBoolean True],
                    proto = ObjectPrototype\<rparr>), 2)
   \<and> [''voidRule'' \<mapsto> JUndefined, ''normalRule'' \<mapsto> JBoolean True] ''voidRule'' = Some JUndefined
   \<and> trust_part000 void_options admin JUndefined 0 =
     (Inr (Mapping \<lparr>own = [''normalRule'' \<mapsto> JBoolean True], proto = ObjectPrototype\<rparr>), 2)
   \<and> [''normalRule'' \<mapsto> JBoolean True] ''voidRule'' = None"
  using trust_lib_void_options trust_part000_void_options by simp

text \<open>
  C3. The two \<open>trust\<close> functions do not produce the same outcome: on the same
  configuration, src/lib/index.ts resolves to an object with two own properties and
  src/unnamed/part_000 to an object with one. They agree on every run in which no evaluator
  returns \<^verbatim>\<open>undefined\<close> (\<open>trust_lib_eq_part000\<close>).
\<close>

theorem trust_lib_differs_from_part000:
  "trust_lib void_options admin JUndefined 0 \<noteq> trust_part000 void_options admin JUndefined 0"
proof
  assume "trust_lib void_options admin JUndefined 0 = trust_part000 void_options admin JUndefined 0"
  then have "[''voidRule'' \<mapsto> JUndefined, ''normalRule'' \<mapsto> JBoolean True] =
      [''normalRule'' \<mapsto> JBoolean True]"
    unfolding trust_lib_void_options trust_part000_void_options by simp
  then have "[''voidRule'' \<mapsto> JUndefined, ''normalRule'' \<mapsto> JBoolean True] ''voidRule'' =
      [''normalRule'' \<mapsto> JBoolean True] ''voidRule''"
    by (rule arg_cong)
  then show False by simp
qed

text \<open>
  C4, as amended. Let every evaluator of the rule list complete without error and return a
  value other than \<^verbatim>\<open>undefined\<close>, let the rule names be pairwise distinct,
  let no rule be named \<^verbatim>\<open>__proto__\<close>, and let no rule named
  \<^verbatim>\<open>then\<close> return a function. Then \<open>trust\<close>, in both files, resolves to an
  object whose own properties are exactly one per rule: its keys are the rule names, there
  are as many as rules, and the value under the name of rule \<open>i\<close> is the value \<open>vs ! i\<close>
  that rule returned.
\<close>

theorem one_entry_per_rule:
  assumes "validated_context options context w = (Returned c, w1)"
    and "capture options input w1 = (Returned p, w2)"
    and "settle_all (rules options) p c w2 = Some (vs, w3)"
    and "JUndefined \<notin> set vs"
    and "distinct (map fst (rules options))"
    and "''__proto__'' \<notin> fst ` set (rules options)"
    and "\<forall>v. (''then'', v) \<in> set (zip (map fst (rules options)) vs) \<longrightarrow> \<not> is_JFunction v"
  shows "\<exists>r. trust_part000 options input context w = (Inr (Mapping r), w3)
           \<and> trust_lib options input context w = (Inr (Mapping r), w3)
           \<and> dom (own r) = fst ` set (rules options)
           \<and> card (dom (own r)) = length (rules options)
           \<and> (\<forall>i < length (rules options). own r (fst (rules options ! i)) = Some (vs ! i))"
proof -
  let ?names = "map fst (rules options)"
  let ?r = "\<lparr>own = map_of (zip ?names vs), proto = ObjectPrototype\<rparr>"
  have len: "length vs = length (rules options)"
    using assms(3) by (rule settle_all_length)
  have "\<not> is_JFunction (then_of ?r)"
    using assms(7) by (auto simp: then_of_def split: option.splits dest: map_of_SomeD)
  then have plain: "resolve ?r = Inr (Mapping ?r)"
    by (rule resolve_plain)
  have a: "trust_part000 options input context w = (Inr (Mapping ?r), w3)"
    using assms(1,2) run_rules_part000_settled [OF assms(3-6), of None empty_object] plain
    by (simp add: trust_part000_def empty_object_def)
  have b: "trust_lib options input context w = (Inr (Mapping ?r), w3)"
    using assms(1,2) run_rules_lib_settled [OF assms(3,5,6), of None empty_object] plain
    by (simp add: trust_lib_def empty_object_def)
  have d: "dom (own ?r) = fst ` set (rules options)"
    using len by (simp add: dom_map_of_zip)
  have e: "card (dom (own ?r)) = length (rules options)"
    using d assms(5) distinct_card [of ?names] by simp
  have f: "\<forall>i < length (rules options). own ?r (fst (rules options ! i)) = Some (vs ! i)"
    using len assms(5) map_of_zip_nth [of ?names vs] by simp
  from a b d e f show ?thesis by blast
qed

text \<open>
  The example of the specification: \<^verbatim>\<open>{ userId: 'admin' }\<close> gives
  \<^verbatim>\<open>{ checkUserId: true, getRole: 'admin' }\<close>.
\<close>

theorem one_entry_per_rule_witness:
  "\<exists>r. trust_part000 admin_options admin JUndefined 0 = (Inr (Mapping r), 2)
      \<and> trust_lib admin_options admin JUndefined 0 = (Inr (Mapping r), 2)
      \<and> dom (own r) = {''checkUserId'', ''getRole''}
      \<and> card (dom (own r)) = 2
      \<and> own r ''checkUserId'' = Some (JBoolean True)
      \<and> own r ''getRole'' = Some (JString ''admin'')"
proof -
  have ctx: "validated_context admin_options JUndefined 0 = (Returned JUndefined, 0)"
    by (simp add: validated_context_def admin_options_def)
  have cap: "capture admin_options admin 0 = (Returned admin, 0)"
    by (simp add: admin_options_def cast_def)
  have rs: "rules admin_options = [(''checkUserId'', checkUserId), (''getRole'', getRole)]"
    by (simp add: admin_options_def customRule_def)
  have all: "settle_all (rules admin_options) admin JUndefined 0 =
      Some ([JBoolean True, JString ''admin''], 2)"
    by (simp add: rs checkUserId_def getRole_def admin_def member_def property_def adopt_plain
        numeral_2_eq_2)
  have defined: "JUndefined \<notin> set [JBoolean True, JString ''admin'']"
    by simp
  have names: "distinct (map fst (rules admin_options))"
    by (simp add: rs)
  have plain: "''__proto__'' \<notin> fst ` set (rules admin_options)"
    by (simp add: rs)
  have no_then: "\<forall>v. (''then'', v) \<in> set (zip (map fst (rules admin_options))
      [JBoolean True, JString ''admin'']) \<longrightarrow> \<not> is_JFunction v"
    by (simp add: rs)
  from one_entry_per_rule [OF ctx cap all defined names plain no_then] obtain r where
    r: "trust_part000 admin_options admin JUndefined 0 = (Inr (Mapping r), 2)"
       "trust_lib admin_options admin JUndefined 0 = (Inr (Mapping r), 2)"
       "dom (own r) = fst ` set (rules admin_options)"
       "card (dom (own r)) = length (rules admin_options)"
       "\<forall>i < length (rules admin_options).
          own r (fst (rules admin_options ! i)) = Some ([JBoolean True, JString ''admin''] ! i)"
    by blast
  from r(5) have "own r ''checkUserId'' = Some (JBoolean True)"
    and "own r ''getRole'' = Some (JString ''admin'')"
    by (auto simp: rs dest: spec [of _ 0] spec [of _ 1])
  with r(1-4) show ?thesis by (auto simp: rs)
qed

text \<open>
  C4 as stated fails for a rule named \<^verbatim>\<open>__proto__\<close>. The rule list of
  \<open>proto_options\<close> has one rule of that name, its evaluator completes without error and
  returns the string \<^verbatim>\<open>admin\<close>, and its names are distinct. The assignment
  \<^verbatim>\<open>returnOfRuleSet['__proto__'] = 'admin'\<close> runs the setter of
  \<^verbatim>\<open>Object.prototype\<close>, which ignores a string: the object \<open>trust\<close> resolves
  to has no entry, under that name or any other. (It fails also for a rule named
  \<^verbatim>\<open>then\<close> that returns a function: \<open>then_rule_is_followed\<close>.)
\<close>

theorem one_entry_per_rule_counterexample:
  "settle_all (rules proto_options) admin JUndefined 0 = Some ([JString ''admin''], 1)
   \<and> distinct (map fst (rules proto_options))
   \<and> trust_part000 proto_options admin JUndefined 0 = (Inr (Mapping empty_object), 1)
   \<and> trust_lib proto_options admin JUndefined 0 = (Inr (Mapping empty_object), 1)
   \<and> own empty_object ''__proto__'' = None
   \<and> dom (own empty_object) = {}"
  by (simp add: proto_options_def customRule_def returning_def trust_part000_def trust_lib_def
      validated_context_def cast_def js_put_def reaches_proto_setter_def empty_object_def
      adopt_plain property_def resolve_def then_of_def)

text \<open>
  C5. Errors before the pipeline. If the context function throws \<open>e\<close>, or it returns and
  the capture function throws \<open>e\<close>, then \<open>trust\<close>, in both files, rejects with \<open>e\<close>
  itself: the value is not wrapped in a \<open>GatekeeperUnauthorizedError\<close> and not changed.
  The world is the one the throwing call left, and the journal shows no rule called.
\<close>

theorem pre_pipeline_errors_propagate:
  assumes "validated_context options context w = (Thrown e, w')
         \<or> (\<exists>c w1. validated_context options context w = (Returned c, w1)
               \<and> capture options input w1 = (Thrown e, w'))"
  shows "trust_part000 options input context w = (Inl e, w')
       \<and> trust_lib options input context w = (Inl e, w')
       \<and> called (journal_part000 options input context w) = []
       \<and> called (journal_lib options input context w) = []"
proof -
  have "trust_part000 options input context w = (Inl e, w')"
    using assms by (auto simp: trust_part000_def)
  moreover have "trust_lib options input context w = (Inl e, w')"
    using assms by (auto simp: trust_lib_def)
  ultimately show ?thesis
    using expected_journal_pre_pipeline [OF assms]
    by (simp add: journal_part000 journal_lib)
qed

text \<open>A capture function that throws an error: \<open>trust\<close> rejects with that error.\<close>

theorem pre_pipeline_errors_propagate_witness:
  "trust_part000 refusing_options bearer JUndefined 0 = (Inl (Error ''no session''), 0)
   \<and> trust_lib refusing_options bearer JUndefined 0 = (Inl (Error ''no session''), 0)
   \<and> called (journal_part000 refusing_options bearer JUndefined 0) = []
   \<and> called (journal_lib refusing_options bearer JUndefined 0) = []"
proof -
  have "validated_context refusing_options JUndefined 0 = (Returned JUndefined, 0)
      \<and> capture refusing_options bearer 0 = (Thrown (Error ''no session''), 0)"
    by (simp add: validated_context_def refusing_options_def cast_def refusing_def)
  then have "validated_context refusing_options JUndefined 0 = (Thrown (Error ''no session''), 0)
         \<or> (\<exists>c w1. validated_context refusing_options JUndefined 0 = (Returned c, w1)
               \<and> capture refusing_options bearer w1 = (Thrown (Error ''no session''), 0))"
    by blast
  from pre_pipeline_errors_propagate [OF this] show ?thesis .
qed

text \<open>
  C6. The empty rule list. When the rule list is empty, \<open>trust\<close>, in both files, never
  reaches its \<^verbatim>\<open>catch\<close> clause: it resolves to the empty object, in the world
  the capture function left, unless the context function or the capture function threw, and
  then it rejects with what that function threw (C5).
\<close>

theorem empty_rule_list:
  assumes "rules options = []"
  shows "trust_part000 options input context w =
           (case validated_context options context w of
              (Thrown e, w1) \<Rightarrow> (Inl e, w1)
            | (Returned c, w1) \<Rightarrow>
                (case capture options input w1 of
                   (Thrown e, w2) \<Rightarrow> (Inl e, w2)
                 | (Returned p, w2) \<Rightarrow> (Inr (Mapping empty_object), w2)))
       \<and> trust_lib options input context w =
           (case validated_context options context w of
              (Thrown e, w1) \<Rightarrow> (Inl e, w1)
            | (Returned c, w1) \<Rightarrow>
                (case capture options input w1 of
                   (Thrown e, w2) \<Rightarrow> (Inl e, w2)
                 | (Returned p, w2) \<Rightarrow> (Inr (Mapping empty_object), w2)))"
  using assms
  by (simp add: trust_part000_def trust_lib_def resolve_empty_object
      split: prod.splits completion.splits)

theorem empty_rule_list_witness:
  "trust_part000 no_rules_options admin JUndefined 0 = (Inr (Mapping empty_object), 0)
   \<and> trust_lib no_rules_options admin JUndefined 0 = (Inr (Mapping empty_object), 0)
   \<and> dom (own empty_object) = {}"
proof -
  have "rules no_rules_options = []"
    by (simp add: no_rules_options_def)
  from empty_rule_list [OF this, of admin JUndefined 0] show ?thesis
    by (simp add: validated_context_def no_rules_options_def cast_def empty_object_def)
qed






text \<open>
  C9. One context. When the context function returns \<open>c\<close> (or none is configured, and
  \<open>c\<close> is then \<^verbatim>\<open>undefined\<close>, whatever raw context was supplied), the journal
  shows the context function called once, with the raw context, when one is configured and
  not at all otherwise, and every rule called received \<open>c\<close> as its context.
\<close>

theorem one_context:
  assumes "validated_context options context w = (Returned c, w1)"
  shows "(case context' options of
            None \<Rightarrow> c = JUndefined
          | Some f \<Rightarrow> f context w = (Returned c, w1))
       \<and> context_calls (journal_part000 options input context w) =
           (case context' options of None \<Rightarrow> [] | Some f \<Rightarrow> [context])
       \<and> snd ` set (received (journal_part000 options input context w)) \<subseteq> {c}
       \<and> context_calls (journal_lib options input context w) =
           (case context' options of None \<Rightarrow> [] | Some f \<Rightarrow> [context])
       \<and> snd ` set (received (journal_lib options input context w)) \<subseteq> {c}"
proof -
  have a: "case context' options of None \<Rightarrow> c = JUndefined | Some f \<Rightarrow> f context w = (Returned c, w1)"
    using assms by (auto simp: validated_context_def split: option.splits)
  have b: "context_calls (expected_journal options input context w) =
           (case context' options of None \<Rightarrow> [] | Some f \<Rightarrow> [context])"
    using assms
    by (simp add: expected_journal_def context_calls_append context_calls_rule_events
        split: option.splits prod.splits completion.splits)
  have d: "snd ` set (received (expected_journal options input context w)) \<subseteq> {c}"
    using assms
    by (auto simp: expected_journal_def received_append
        split: option.splits prod.splits completion.splits dest: received_rule_events)
  from a b d show ?thesis
    by (simp add: journal_part000 journal_lib)
qed

text \<open>
  The test suite's configuration with \<^verbatim>\<open>{ role: 'admin' }\<close> as context: one
  call of the context function, and four rules called, each with that context.
\<close>

theorem one_context_witness:
  "context_calls (journal_part000 suite_options bearer role_context 0) = [role_context]
   \<and> snd ` set (received (journal_part000 suite_options bearer role_context 0)) \<subseteq> {role_context}
   \<and> context_calls (journal_lib suite_options bearer role_context 0) = [role_context]
   \<and> snd ` set (received (journal_lib suite_options bearer role_context 0)) \<subseteq> {role_context}
   \<and> length (received (journal_part000 suite_options bearer role_context 0)) = 4"
proof -
  have ctx: "validated_context suite_options role_context 0 = (Returned role_context, 0)"
    by (simp add: validated_context_def suite_options_def cast_def)
  have some: "context' suite_options = Some cast"
    by (simp add: suite_options_def)
  have four: "length (received (journal_part000 suite_options bearer role_context 0)) = 4"
    by (simp add: journal_part000 expected_journal_def validated_context_def suite_options_def
        cast_def organization_def user_def error_rule_def hide_def role_context_def bearer_def
        member_def property_def adopt_plain)
  from one_context [OF ctx, of bearer] some four show ?thesis
    by simp
qed




end
